theory Spec2Isabelle
  imports Complex_Main "HOL-Library.Word" "HOL-Library.Log_Nat"
begin

section \<open>The URL document (server/models/Url.js)\<close>

text \<open>
  Dates are milliseconds since the epoch, as JavaScript compares them. The counters are
  JavaScript Numbers holding integers; they are modelled as unbounded integers, which is
  exact for every value below \<open>2 ^ 53\<close>. A field that JavaScript leaves \<open>undefined\<close> or
  \<open>null\<close> is \<open>None\<close>.
\<close>

type_synonym date = int

record click =
  ip :: "string option"
  userAgent :: "string option"
  referer :: "string option"
  country :: string
  city :: string
  timestamp :: date

record clickData =
  cd_ip :: "string option"
  cd_userAgent :: "string option"
  cd_referer :: "string option"
  cd_country :: "string option"
  cd_city :: "string option"

record url =
  doc_id :: nat
  originalUrl :: string
  shortCode :: string
  customCode :: bool
  userId :: "nat option"
  clicks :: nat
  maxClicks :: "int option"
  expiresAt :: "date option"
  isActive :: bool
  title :: "string option"
  description :: "string option"
  tags :: "string list"
  clickHistory :: "click list"
  createdAt :: date
  updatedAt :: date

text \<open>\<open>isExpired\<close>: a missing expiry never expires; otherwise the clock reading \<open>now\<close>
  (the value of \<open>new Date()\<close>) is compared strictly.\<close>

definition isExpired :: "date \<Rightarrow> url \<Rightarrow> bool" where
  "isExpired now this =
     (case expiresAt this of None \<Rightarrow> False | Some e \<Rightarrow> now > e)"

text \<open>\<open>hasReachedMaxClicks\<close>: \<open>!this.maxClicks\<close> holds for \<open>null\<close> and for \<open>0\<close>.\<close>

definition hasReachedMaxClicks :: "url \<Rightarrow> bool" where
  "hasReachedMaxClicks this =
     (case maxClicks this of
        None \<Rightarrow> False
      | Some m \<Rightarrow> if m = 0 then False else int (clicks this) \<ge> m)"

definition isAccessible :: "date \<Rightarrow> url \<Rightarrow> bool" where
  "isAccessible now this =
     (isActive this \<and> \<not> isExpired now this \<and> \<not> hasReachedMaxClicks this)"

text \<open>\<open>a || b\<close> on an optional string: \<open>undefined\<close> and the empty string are falsy.\<close>

definition or_default :: "string option \<Rightarrow> string \<Rightarrow> string" where
  "or_default a b = (case a of None \<Rightarrow> b | Some s \<Rightarrow> if s = [] then b else s)"

text \<open>\<open>Array.prototype.slice(-n)\<close>: the start index is \<open>max (length - n) 0\<close>.\<close>

definition slice_last :: "nat \<Rightarrow> 'a list \<Rightarrow> 'a list" where
  "slice_last n xs =
     (let len = length xs; start = (if n \<le> len then len - n else 0)
      in drop start xs)"

definition click_entry :: "date \<Rightarrow> clickData \<Rightarrow> click" where
  "click_entry now cd =
     \<lparr> ip = cd_ip cd,
       userAgent = cd_userAgent cd,
       referer = cd_referer cd,
       country = or_default (cd_country cd) ''Unknown'',
       city = or_default (cd_city cd) ''Unknown'',
       timestamp = now \<rparr>"

text \<open>The first two statements of \<open>addClick\<close>: the increment and the push.\<close>

definition pushClick :: "date \<Rightarrow> clickData \<Rightarrow> url \<Rightarrow> url" where
  "pushClick now cd this =
     this\<lparr> clicks := clicks this + 1,
           clickHistory := clickHistory this @ [click_entry now cd] \<rparr>"

text \<open>The third statement of \<open>addClick\<close>: keep only the last 100 click records.\<close>

definition trimHistory :: "url \<Rightarrow> url" where
  "trimHistory this =
     (if length (clickHistory this) > 100
      then this\<lparr> clickHistory := slice_last 100 (clickHistory this) \<rparr>
      else this)"

text \<open>\<open>addClick\<close> on the document in memory; the handler persists the result with
  \<open>save\<close>.\<close>

definition addClick :: "date \<Rightarrow> clickData \<Rightarrow> url \<Rightarrow> url" where
  "addClick now cd this = trimHistory (pushClick now cd this)"

text \<open>A sequence of clicks, each with the clock reading of its \<open>new Date()\<close>.\<close>

fun addClicks :: "(date \<times> clickData) list \<Rightarrow> url \<Rightarrow> url" where
  "addClicks [] this = this"
| "addClicks ((now, cd) # evs) this = addClicks evs (addClick now cd this)"

text \<open>The \<open>n\<close> most recent elements of a log whose newest element is last.\<close>

definition most_recent :: "nat \<Rightarrow> 'a list \<Rightarrow> 'a list" where
  "most_recent n xs = rev (take n (rev xs))"

section \<open>Short-code generators (server/utils/urlUtils.js)\<close>

definition chars :: string where
  "chars = ''ABCDEFGHIJKLMNOPQRSTUVWXYZabcdefghijklmnopqrstuvwxyz0123456789''"

text \<open>\<open>String.prototype.charAt\<close>: the empty string outside the range.\<close>

definition charAt :: "string \<Rightarrow> int \<Rightarrow> string" where
  "charAt s i = (if 0 \<le> i \<and> i < int (length s) then [s ! nat i] else [])"

text \<open>\<open>s[j]\<close> appended to a string: \<open>undefined\<close> outside the range, which \<open>+=\<close>
  writes out as the text \<open>undefined\<close>.\<close>

definition index_str :: "string \<Rightarrow> nat \<Rightarrow> string" where
  "index_str s j = (if j < length s then [s ! j] else ''undefined'')"

text \<open>The default parameter \<open>length = 6\<close>: \<open>None\<close> is a call without the argument.\<close>

definition length_or_default :: "nat option \<Rightarrow> nat" where
  "length_or_default len = (case len of None \<Rightarrow> 6 | Some n \<Rightarrow> n)"

text \<open>
  JavaScript Numbers in the generator are IEEE 754 doubles. A double is modelled by the
  real number it denotes, and an arithmetic result is rounded to the nearest double,
  ties to the even significand. \<open>binade x\<close> is the exponent \<open>e\<close> with
  \<open>2 ^ e \<le> x < 2 ^ (e + 1)\<close>, not below the subnormal exponent; \<open>ulp x\<close> is the
  spacing of the doubles there. Overflow to infinity is not modelled: the values
  rounded here stay far below \<open>2 ^ 1024\<close>.
\<close>

definition round_half_even :: "real \<Rightarrow> int" where
  "round_half_even q =
     (let f = \<lfloor>q\<rfloor>; d = q - of_int f
      in if d < 1 / 2 then f else if 1 / 2 < d then f + 1
         else if even f then f else f + 1)"

definition binade :: "real \<Rightarrow> int" where
  "binade x =
     max (- 1022) (if 1 \<le> x then bitlen \<lfloor>x\<rfloor> - 1 else - bitlen (\<lceil>1 / x\<rceil> - 1))"

definition ulp :: "real \<Rightarrow> real" where
  "ulp x = 2 powi (binade x - 52)"

definition to_double :: "real \<Rightarrow> real" where
  "to_double x =
     (if x = 0 then 0
      else sgn x * (of_int (round_half_even (\<bar>x\<bar> / ulp \<bar>x\<bar>)) * ulp \<bar>x\<bar>))"

text \<open>A real number is a double when rounding leaves it as it is.\<close>

definition is_double :: "real \<Rightarrow> bool" where
  "is_double x = (to_double x = x)"

text \<open>
  The loop of \<open>generateShortCode\<close>. \<open>rnd i\<close> is the value of the \<open>i\<close>-th call of
  \<open>Math.random()\<close>, a double in \<open>[0, 1)\<close>; the index is
  \<open>Math.floor(Math.random() * chars.length)\<close>, the floor of the rounded product.
\<close>

function shortCode_loop :: "nat \<Rightarrow> nat \<Rightarrow> (nat \<Rightarrow> real) \<Rightarrow> string \<Rightarrow> string" where
  "shortCode_loop len i rnd result =
     (if i < len
      then shortCode_loop len (i + 1) rnd
             (result @ charAt chars \<lfloor>to_double (rnd i * real (length chars))\<rfloor>)
      else result)"
  by pat_completeness auto
termination
  by (relation "measure (\<lambda>(len, i, rnd, result). len - i)") auto

definition generateShortCode :: "nat option \<Rightarrow> (nat \<Rightarrow> real) \<Rightarrow> string" where
  "generateShortCode len rnd = shortCode_loop (length_or_default len) 0 rnd []"

text \<open>
  The loop of \<open>generateSecureShortCode\<close>. \<open>bytes\<close> is the buffer returned by
  \<open>crypto.randomBytes(length)\<close>; reading past its end gives \<open>undefined\<close>, whose
  remainder is \<open>NaN\<close>, and \<open>chars[NaN]\<close> is \<open>undefined\<close>.
\<close>

definition byte_at :: "8 word list \<Rightarrow> nat \<Rightarrow> 8 word option" where
  "byte_at bytes i = (if i < length bytes then Some (bytes ! i) else None)"

function secure_loop :: "nat \<Rightarrow> nat \<Rightarrow> 8 word list \<Rightarrow> string \<Rightarrow> string" where
  "secure_loop len i bytes result =
     (if i < len
      then secure_loop len (i + 1) bytes
             (result @ (case byte_at bytes i of
                          None \<Rightarrow> ''undefined''
                        | Some b \<Rightarrow> index_str chars (unat b mod length chars)))
      else result)"
  by pat_completeness auto
termination
  by (relation "measure (\<lambda>(len, i, bytes, result). len - i)") auto

definition generateSecureShortCode :: "nat option \<Rightarrow> 8 word list \<Rightarrow> string" where
  "generateSecureShortCode len bytes = secure_loop (length_or_default len) 0 bytes []"

text \<open>The character class \<open>[A-Za-z0-9]\<close>, by character code.\<close>

definition is_alnum :: "char \<Rightarrow> bool" where
  "is_alnum c =
     (let n = (of_char c :: nat)
      in (65 \<le> n \<and> n \<le> 90) \<or> (97 \<le> n \<and> n \<le> 122) \<or> (48 \<le> n \<and> n \<le> 57))"

text \<open>
  The parts of the platform and of the validation library that the handlers call:
  \<open>isURL\<close> (with the protocols http and https) and \<open>isISO8601\<close> of the validator,
  the protocol of \<open>new URL(s)\<close> (\<open>None\<close> when the constructor throws) and the time
  value of \<open>new Date(s)\<close> (\<open>None\<close> for an invalid date).
\<close>

record library =
  isURL :: "string \<Rightarrow> bool"
  isISO8601 :: "string \<Rightarrow> bool"
  urlProtocol :: "string \<Rightarrow> string option"
  parseDate :: "string \<Rightarrow> date option"

definition isValidUrl :: "library \<Rightarrow> string \<Rightarrow> bool" where
  "isValidUrl lib s =
     (case urlProtocol lib s of
        None \<Rightarrow> False
      | Some protocol \<Rightarrow> protocol = ''http:'' \<or> protocol = ''https:'')"

section \<open>The document store\<close>

text \<open>
  The collection is the list of its documents in insertion order. The schema options
  of Url.js are part of it: string fields are trimmed when a document is built, the
  validators run when it is saved, and \<open>shortCode\<close> (like \<open>_id\<close>) has a unique index.
\<close>

type_synonym store = "url list"

definition findOne_shortCode :: "store \<Rightarrow> string \<Rightarrow> url option" where
  "findOne_shortCode db code = find (\<lambda>d. shortCode d = code) db"

text \<open>The white space and line terminators of \<open>String.prototype.trim\<close> among the
  characters below 256.\<close>

definition is_space :: "char \<Rightarrow> bool" where
  "is_space c = ((of_char c :: nat) \<in> {9, 10, 11, 12, 13, 32, 160})"

definition trim :: "string \<Rightarrow> string" where
  "trim s = rev (dropWhile is_space (rev (dropWhile is_space s)))"

text \<open>The character class \<open>[a-zA-Z0-9_-]\<close> and the pattern \<open>^[a-zA-Z0-9_-]+$\<close>.\<close>

definition is_code_char :: "char \<Rightarrow> bool" where
  "is_code_char c = (is_alnum c \<or> c = CHR ''_'' \<or> c = CHR ''-'')"

definition matches_code :: "string \<Rightarrow> bool" where
  "matches_code s = (s \<noteq> [] \<and> list_all is_code_char s)"

definition opt_length_le :: "nat \<Rightarrow> string option \<Rightarrow> bool" where
  "opt_length_le n s = (case s of None \<Rightarrow> True | Some v \<Rightarrow> length v \<le> n)"

record urlData =
  ud_originalUrl :: string
  ud_shortCode :: string
  ud_customCode :: bool
  ud_userId :: "nat option"
  ud_title :: "string option"
  ud_description :: "string option"
  ud_expiresAt :: "date option"
  ud_maxClicks :: "int option"
  ud_tags :: "string list"

text \<open>\<open>new Url(urlData)\<close>: the setters trim, the defaults fill the rest. \<open>new_id\<close> is
  the fresh \<open>_id\<close> and \<open>now\<close> the reading of \<open>Date.now\<close> for the two date defaults.\<close>

definition new_Url :: "nat \<Rightarrow> date \<Rightarrow> urlData \<Rightarrow> url" where
  "new_Url new_id now ud =
     \<lparr> doc_id = new_id,
       originalUrl = trim (ud_originalUrl ud),
       shortCode = trim (ud_shortCode ud),
       customCode = ud_customCode ud,
       userId = ud_userId ud,
       clicks = 0,
       maxClicks = ud_maxClicks ud,
       expiresAt = ud_expiresAt ud,
       isActive = True,
       title = map_option trim (ud_title ud),
       description = map_option trim (ud_description ud),
       tags = map trim (ud_tags ud),
       clickHistory = [],
       createdAt = now,
       updatedAt = now \<rparr>"

text \<open>The validators of the schema, run by \<open>save\<close>.\<close>

definition schema_valid :: "url \<Rightarrow> bool" where
  "schema_valid d =
     (originalUrl d \<noteq> [] \<and> length (originalUrl d) \<le> 2048 \<and>
      shortCode d \<noteq> [] \<and> 3 \<le> length (shortCode d) \<and> length (shortCode d) \<le> 20 \<and>
      matches_code (shortCode d) \<and>
      opt_length_le 200 (title d) \<and>
      opt_length_le 500 (description d) \<and>
      list_all (\<lambda>t. length t \<le> 50) (tags d))"

text \<open>\<open>save\<close> of a new document: \<open>None\<close> when it throws (a validation error or a
  duplicate key); the pre-save hook sets \<open>updatedAt\<close>.\<close>

definition save_new :: "date \<Rightarrow> url \<Rightarrow> store \<Rightarrow> (url \<times> store) option" where
  "save_new now d db =
     (if \<not> schema_valid d then None
      else if list_ex (\<lambda>e. shortCode e = shortCode d \<or> doc_id e = doc_id d) db then None
      else (let d' = d\<lparr> updatedAt := now \<rparr> in Some (d', db @ [d'])))"

text \<open>\<open>save\<close> of a document read from the store: the stored document with its \<open>_id\<close>
  is replaced.\<close>

fun replace_by_id :: "url \<Rightarrow> store \<Rightarrow> store" where
  "replace_by_id d [] = []"
| "replace_by_id d (e # es) =
     (if doc_id e = doc_id d then d # es else e # replace_by_id d es)"

definition save_existing :: "date \<Rightarrow> url \<Rightarrow> store \<Rightarrow> store" where
  "save_existing now d db = replace_by_id (d\<lparr> updatedAt := now \<rparr>) db"

text \<open>\<open>findOneAndDelete\<close>: the first matching document is removed and returned.\<close>

fun findOneAndDelete :: "(url \<Rightarrow> bool) \<Rightarrow> store \<Rightarrow> url option \<times> store" where
  "findOneAndDelete q [] = (None, [])"
| "findOneAndDelete q (e # es) =
     (if q e then (Some e, es)
      else (case findOneAndDelete q es of (r, es') \<Rightarrow> (r, e # es')))"

text \<open>\<open>deleteMany\<close>: every matching document is removed; the count is returned.\<close>

definition deleteMany :: "(url \<Rightarrow> bool) \<Rightarrow> store \<Rightarrow> nat \<times> store" where
  "deleteMany q db = (length (filter q db), filter (\<lambda>e. \<not> q e) db)"

section \<open>Responses\<close>

text \<open>A JSON response is its status, its \<open>success\<close> flag, its message and, for a
  created record, the document the \<open>data\<close> field is built from; or a redirect.\<close>

datatype response =
    Json nat bool string "url option"
  | Redirect nat string

section \<open>POST /shorten (server/routes/urls.js)\<close>

record shorten_body =
  body_originalUrl :: string
  body_customCode :: "string option"
  body_title :: "string option"
  body_description :: "string option"
  body_expiresAt :: "string option"
  body_maxClicks :: "int option"
  body_tags :: "string list option"

text \<open>The validation chain: an optional field is checked only when present.\<close>

definition validation_ok :: "library \<Rightarrow> shorten_body \<Rightarrow> bool" where
  "validation_ok lib b =
     (isURL lib (body_originalUrl b) \<and> length (body_originalUrl b) \<le> 2048 \<and>
      (case body_customCode b of
         None \<Rightarrow> True
       | Some c \<Rightarrow> 3 \<le> length c \<and> length c \<le> 20 \<and> matches_code c) \<and>
      opt_length_le 200 (body_title b) \<and>
      opt_length_le 500 (body_description b) \<and>
      (case body_expiresAt b of None \<Rightarrow> True | Some e \<Rightarrow> isISO8601 lib e) \<and>
      (case body_maxClicks b of None \<Rightarrow> True | Some m \<Rightarrow> 1 \<le> m))"

text \<open>Truthiness of an optional string.\<close>

definition truthy :: "string option \<Rightarrow> bool" where
  "truthy s = (case s of None \<Rightarrow> False | Some v \<Rightarrow> v \<noteq> [])"

definition maxAttempts :: nat where
  "maxAttempts = 10"

text \<open>The random source after \<open>n\<close> calls of \<open>Math.random()\<close>.\<close>

definition after_draws :: "nat \<Rightarrow> (nat \<Rightarrow> real) \<Rightarrow> (nat \<Rightarrow> real)" where
  "after_draws n rnd = (\<lambda>i. rnd (i + n))"

text \<open>
  The \<open>do ... while\<close> loop of the handler, entered with \<open>attempts\<close> attempts made.
  The result is the code the loop leaves with (\<open>None\<close> when it returns the 500
  response) and the codes passed to \<open>Url.findOne\<close>, in order.
\<close>

function generation_loop ::
  "(nat \<Rightarrow> real) \<Rightarrow> store \<Rightarrow> nat \<Rightarrow> string list \<Rightarrow> string option \<times> string list" where
  "generation_loop rnd db attempts queried =
     (if attempts + 1 \<ge> maxAttempts then (None, queried)
      else (case findOne_shortCode db (generateShortCode None rnd) of
              Some _ \<Rightarrow>
                generation_loop (after_draws 6 rnd) db (attempts + 1)
                  (queried @ [generateShortCode None rnd])
            | None \<Rightarrow>
                (Some (generateShortCode None rnd),
                 queried @ [generateShortCode None rnd])))"
  by pat_completeness auto
termination
  by (relation "measure (\<lambda>(rnd, db, attempts, queried). maxAttempts - attempts)")
    (auto simp: maxAttempts_def)

text \<open>
  The handler. \<open>rnd\<close> is the random source, \<open>new_id\<close> the \<open>_id\<close> of the new document,
  \<open>t_new\<close> and \<open>t_save\<close> the clock when the document is built and saved, \<open>user\<close> the
  \<open>_id\<close> of \<open>req.user\<close> set by \<open>optionalAuth\<close>. The result is the response, the
  store and the codes passed to \<open>Url.findOne\<close>.
\<close>

definition create_url ::
  "library \<Rightarrow> nat \<Rightarrow> date \<Rightarrow> date \<Rightarrow> nat option \<Rightarrow> shorten_body \<Rightarrow> store \<Rightarrow> string \<Rightarrow>
   string list \<Rightarrow> response \<times> store \<times> string list" where
  "create_url lib new_id t_new t_save user b db code queried =
     (case (case body_expiresAt b of
              None \<Rightarrow> Some None
            | Some e \<Rightarrow> if e = [] then Some None else map_option Some (parseDate lib e)) of
        None \<Rightarrow> (Json 500 False ''Server error during URL shortening'' None, db, queried)
      | Some expires \<Rightarrow>
          (case save_new t_save
                  (new_Url new_id t_new
                     \<lparr> ud_originalUrl = body_originalUrl b,
                       ud_shortCode = code,
                       ud_customCode = truthy (body_customCode b),
                       ud_userId = user,
                       ud_title = body_title b,
                       ud_description = body_description b,
                       ud_expiresAt = expires,
                       ud_maxClicks = body_maxClicks b,
                       ud_tags = (case body_tags b of None \<Rightarrow> [] | Some ts \<Rightarrow> ts) \<rparr>)
                  db of
             None \<Rightarrow> (Json 500 False ''Server error during URL shortening'' None, db, queried)
           | Some (d, db') \<Rightarrow> (Json 201 True ''URL shortened successfully'' (Some d), db', queried)))"

text \<open>The branch \<open>if (!shortCode)\<close>: no code was supplied and one is generated.\<close>

definition shorten_generated ::
  "library \<Rightarrow> (nat \<Rightarrow> real) \<Rightarrow> nat \<Rightarrow> date \<Rightarrow> date \<Rightarrow> nat option \<Rightarrow> shorten_body \<Rightarrow> store \<Rightarrow>
   response \<times> store \<times> string list" where
  "shorten_generated lib rnd new_id t_new t_save user b db =
     (case generation_loop rnd db 0 [] of
        (None, queried) \<Rightarrow>
          (Json 500 False ''Unable to generate unique short code. Please try again.'' None,
           db, queried)
      | (Some code, queried) \<Rightarrow>
          create_url lib new_id t_new t_save user b db code queried)"

text \<open>The \<open>else\<close> branch: the supplied code is looked up once.\<close>

definition shorten_custom ::
  "library \<Rightarrow> nat \<Rightarrow> date \<Rightarrow> date \<Rightarrow> nat option \<Rightarrow> shorten_body \<Rightarrow> store \<Rightarrow> string \<Rightarrow>
   response \<times> store \<times> string list" where
  "shorten_custom lib new_id t_new t_save user b db code =
     (case findOne_shortCode db code of
        Some _ \<Rightarrow> (Json 400 False ''Custom code is already taken'' None, db, [code])
      | None \<Rightarrow> create_url lib new_id t_new t_save user b db code [code])"

definition shorten ::
  "library \<Rightarrow> (nat \<Rightarrow> real) \<Rightarrow> nat \<Rightarrow> date \<Rightarrow> date \<Rightarrow> nat option \<Rightarrow> shorten_body \<Rightarrow> store \<Rightarrow>
   response \<times> store \<times> string list" where
  "shorten lib rnd new_id t_new t_save user b db =
     (if \<not> validation_ok lib b then (Json 400 False ''Validation failed'' None, db, [])
      else if \<not> isValidUrl lib (body_originalUrl b)
      then (Json 400 False ''Invalid URL format'' None, db, [])
      else (case body_customCode b of
              None \<Rightarrow> shorten_generated lib rnd new_id t_new t_save user b db
            | Some code \<Rightarrow>
                if code = [] then shorten_generated lib rnd new_id t_new t_save user b db
                else shorten_custom lib new_id t_new t_save user b db code))"

section \<open>DELETE /:id and DELETE /bulk/delete (server/routes/urls.js)\<close>

text \<open>
  Both run behind \<open>auth\<close>; \<open>uid\<close> is the \<open>_id\<close> of the authenticated user. The ids
  of the request are strings. \<open>cast\<close> is the cast of the store's driver from a string
  to an \<open>_id\<close>, \<open>None\<close> when it throws a \<open>CastError\<close>: the query then throws and the
  \<open>catch\<close> branch of the handler answers 500.
\<close>

definition delete_url ::
  "(string \<Rightarrow> nat option) \<Rightarrow> nat \<Rightarrow> string \<Rightarrow> store \<Rightarrow> response \<times> store" where
  "delete_url cast uid param_id db =
     (case cast param_id of
        None \<Rightarrow> (Json 500 False ''Server error during URL deletion'' None, db)
      | Some url_id \<Rightarrow>
          (case findOneAndDelete (\<lambda>d. doc_id d = url_id \<and> userId d = Some uid) db of
             (None, _) \<Rightarrow> (Json 404 False ''URL not found'' None, db)
           | (Some _, db') \<Rightarrow> (Json 200 True ''URL deleted successfully'' None, db')))"

text \<open>The decimal text of a count, as the template string writes it.\<close>

function decimal :: "nat \<Rightarrow> string" where
  "decimal n =
     (if n < 10 then [char_of (48 + n)]
      else decimal (n div 10) @ [char_of (48 + n mod 10)])"
  by pat_completeness auto
termination
  by (relation "measure (\<lambda>n. n)") auto

text \<open>The cast of every element of the \<open>$in\<close> array: \<open>None\<close> when one of them
  throws.\<close>

fun cast_all :: "(string \<Rightarrow> nat option) \<Rightarrow> string list \<Rightarrow> nat list option" where
  "cast_all cast [] = Some []"
| "cast_all cast (s # ss) =
     (case cast s of
        None \<Rightarrow> None
      | Some i \<Rightarrow> (case cast_all cast ss of None \<Rightarrow> None | Some js \<Rightarrow> Some (i # js)))"

text \<open>\<open>urlIds\<close> is \<open>None\<close> when the body has no array there.\<close>

definition bulk_delete ::
  "(string \<Rightarrow> nat option) \<Rightarrow> nat \<Rightarrow> string list option \<Rightarrow> store \<Rightarrow> response \<times> store" where
  "bulk_delete cast uid urlIds db =
     (case urlIds of
        None \<Rightarrow> (Json 400 False ''Validation failed'' None, db)
      | Some params \<Rightarrow>
          if length params < 1 then (Json 400 False ''Validation failed'' None, db)
          else (case cast_all cast params of
                  None \<Rightarrow> (Json 500 False ''Server error during bulk deletion'' None, db)
                | Some ids \<Rightarrow>
                    (case deleteMany (\<lambda>d. List.member ids (doc_id d) \<and> userId d = Some uid)
                            db of
                       (deletedCount, db') \<Rightarrow>
                         (Json 200 True
                            (decimal deletedCount @ '' URLs deleted successfully'') None,
                          db'))))"

section \<open>GET /:shortCode (the redirect route)\<close>

record redirect_request =
  param_shortCode :: string
  req_ip :: "string option"
  remoteAddress :: "string option"
  header :: "string \<Rightarrow> string option"

text \<open>\<open>a || b\<close> on two optional strings.\<close>

definition or_else :: "string option \<Rightarrow> string option \<Rightarrow> string option" where
  "or_else a b = (if truthy a then a else b)"

definition request_clickData :: "redirect_request \<Rightarrow> clickData" where
  "request_clickData req =
     \<lparr> cd_ip = or_else (req_ip req) (remoteAddress req),
       cd_userAgent = Some (or_default (header req ''User-Agent'') ''Unknown''),
       cd_referer = Some (or_default (header req ''Referer'') ''Direct''),
       cd_country = Some (or_default (header req ''CF-IPCountry'') ''Unknown''),
       cd_city = Some (or_default (header req ''CF-IPCity'') ''Unknown'') \<rparr>"

text \<open>The message of the 410 response; \<open>now\<close> is the clock when \<open>isExpired\<close> is called
  here, after the call of \<open>isAccessible\<close>.\<close>

definition gone_message :: "date \<Rightarrow> url \<Rightarrow> string" where
  "gone_message now d =
     (if isExpired now d then ''This short URL has expired''
      else if hasReachedMaxClicks d
      then ''This short URL has reached its maximum click limit''
      else if \<not> isActive d then ''This short URL has been deactivated''
      else ''This short URL is no longer active'')"

text \<open>
  The handler reads the clock in \<open>isAccessible\<close> (\<open>t_access\<close>), then either in the
  second \<open>isExpired\<close> (\<open>t_reason\<close>) or in \<open>addClick\<close> (\<open>t_click\<close>) and \<open>save\<close>
  (\<open>t_save\<close>).
\<close>

definition redirect ::
  "date \<Rightarrow> date \<Rightarrow> date \<Rightarrow> date \<Rightarrow> redirect_request \<Rightarrow> store \<Rightarrow> response \<times> store" where
  "redirect t_access t_reason t_click t_save req db =
     (case findOne_shortCode db (param_shortCode req) of
        None \<Rightarrow> (Json 404 False ''Short URL not found'' None, db)
      | Some d \<Rightarrow>
          if \<not> isAccessible t_access d
          then (Json 410 False (gone_message t_reason d) None, db)
          else (let d' = addClick t_click (request_clickData req) d
                in (Redirect 302 (originalUrl d'), save_existing t_save d' db)))"

section \<open>Example inputs\<close>

text \<open>A library that accepts one URL and one date, a request for that URL, the
  document it creates and a visit of its short link.\<close>

definition example_lib :: library where
  "example_lib =
     \<lparr> isURL = (\<lambda>s. s = ''https://example.com/a/very/long/path''),
       isISO8601 = (\<lambda>s. s = ''2000-01-01''),
       urlProtocol = (\<lambda>s. if s = ''https://example.com/a/very/long/path''
                           then Some ''https:'' else None),
       parseDate = (\<lambda>s. if s = ''2000-01-01'' then Some 946684800000 else None) \<rparr>"

definition example_body :: shorten_body where
  "example_body =
     \<lparr> body_originalUrl = ''https://example.com/a/very/long/path'',
       body_customCode = None,
       body_title = None,
       body_description = None,
       body_expiresAt = None,
       body_maxClicks = None,
       body_tags = None \<rparr>"

definition example_data :: urlData where
  "example_data =
     \<lparr> ud_originalUrl = ''https://example.com/a/very/long/path'',
       ud_shortCode = ''AAAAAA'',
       ud_customCode = False,
       ud_userId = None,
       ud_title = None,
       ud_description = None,
       ud_expiresAt = None,
       ud_maxClicks = None,
       ud_tags = [] \<rparr>"

definition example_url :: url where
  "example_url = new_Url 1 0 example_data"

definition example_click :: clickData where
  "example_click =
     \<lparr> cd_ip = Some ''203.0.113.7'',
       cd_userAgent = Some ''Unknown'',
       cd_referer = Some ''Direct'',
       cd_country = None,
       cd_city = Some [] \<rparr>"

definition example_request :: redirect_request where
  "example_request =
     \<lparr> param_shortCode = ''AAAAAA'',
       req_ip = Some ''203.0.113.7'',
       remoteAddress = None,
       header = (\<lambda>h. None) \<rparr>"

text \<open>A cast that knows two well-formed ids and throws on everything else.\<close>

definition example_cast :: "string \<Rightarrow> nat option" where
  "example_cast s =
     (if s = ''64b7f0c2a1d3e4f5a6b7c8d1'' then Some 1
      else if s = ''64b7f0c2a1d3e4f5a6b7c8d2'' then Some 2
      else None)"

section \<open>Properties of the document methods\<close>

lemma most_recent_drop: "most_recent n xs = drop (length xs - n) xs"
  by (simp add: most_recent_def take_rev)

lemma slice_last_most_recent: "slice_last n xs = most_recent n xs"
  by (simp add: slice_last_def most_recent_drop Let_def)

lemma most_recent_short: "length xs \<le> n \<Longrightarrow> most_recent n xs = xs"
  by (simp add: most_recent_drop)

lemma length_most_recent: "length (most_recent n xs) = min n (length xs)"
  by (simp add: most_recent_drop)

lemma most_recent_append:
  "most_recent n (most_recent n xs @ ys) = most_recent n (xs @ ys)"
  by (simp add: most_recent_def min_def)

lemma clickHistory_addClick:
  "clickHistory (addClick now cd this) =
     most_recent 100 (clickHistory this @ [click_entry now cd])"
  by (simp add: addClick_def trimHistory_def pushClick_def slice_last_most_recent
      most_recent_short)

lemma clicks_addClick: "clicks (addClick now cd this) = clicks this + 1"
  by (simp add: addClick_def trimHistory_def pushClick_def)

lemma addClick_frame:
  "isActive (addClick now cd this) = isActive this"
  "expiresAt (addClick now cd this) = expiresAt this"
  "maxClicks (addClick now cd this) = maxClicks this"
  "originalUrl (addClick now cd this) = originalUrl this"
  "shortCode (addClick now cd this) = shortCode this"
  "doc_id (addClick now cd this) = doc_id this"
  by (simp_all add: addClick_def trimHistory_def pushClick_def)

lemma clicks_addClicks: "clicks (addClicks evs this) = clicks this + length evs"
  by (induction evs this rule: addClicks.induct) (simp_all add: clicks_addClick)

lemma addClicks_frame:
  "isActive (addClicks evs this) = isActive this"
  "expiresAt (addClicks evs this) = expiresAt this"
  "maxClicks (addClicks evs this) = maxClicks this"
  by (induction evs this rule: addClicks.induct) (simp_all add: addClick_frame)

lemma clickHistory_addClicks:
  "length (clickHistory this) \<le> 100 \<Longrightarrow>
   clickHistory (addClicks evs this) =
     most_recent 100 (clickHistory this @ map (\<lambda>(now, cd). click_entry now cd) evs)"
proof (induction evs this rule: addClicks.induct)
  case (1 this)
  then show ?case by (simp add: most_recent_short)
next
  case (2 now cd evs this)
  have "length (clickHistory (addClick now cd this)) \<le> 100"
    by (simp add: clickHistory_addClick length_most_recent)
  from "2.IH" [OF this] show ?case
    by (simp add: clickHistory_addClick most_recent_append)
qed

text \<open>
  C3. A record with \<open>maxClicks = N\<close>, \<open>N\<close> positive, that is active and not expired
  is accessible exactly while its click counter is below \<open>N\<close>; after any sequence of
  recorded clicks it is accessible exactly when the counter is still below \<open>N\<close>, so
  it becomes inaccessible with the \<open>N\<close>-th click and not before.
\<close>

theorem max_clicks_inaccessible_exactly_at_limit:
  assumes "maxClicks d = Some N" and "0 < N" and "isActive d" and "\<not> isExpired now d"
  shows "isAccessible now d = (int (clicks d) < N) \<and>
         isAccessible now (addClicks evs d) = (int (clicks d) + int (length evs) < N)"
  using assms
  by (auto simp: isAccessible_def hasReachedMaxClicks_def isExpired_def addClicks_frame
      clicks_addClicks)

theorem max_clicks_inaccessible_exactly_at_limit_witness:
  "isAccessible 5 (addClicks [(1, example_click)] (example_url\<lparr> maxClicks := Some 2 \<rparr>)) \<and>
   \<not> isAccessible 5
       (addClicks [(1, example_click), (2, example_click)]
          (example_url\<lparr> maxClicks := Some 2 \<rparr>))"
  using max_clicks_inaccessible_exactly_at_limit
      [of "example_url\<lparr> maxClicks := Some 2 \<rparr>" 2 5 "[(1, example_click)]"]
    max_clicks_inaccessible_exactly_at_limit
      [of "example_url\<lparr> maxClicks := Some 2 \<rparr>" 2 5
          "[(1, example_click), (2, example_click)]"]
  by (simp add: example_url_def new_Url_def example_data_def isExpired_def)

text \<open>
  C4. A record whose \<open>expiresAt\<close> is strictly before the clock reading is not
  accessible, whatever its click counter, its click limit and its active flag are.
\<close>

theorem expired_never_accessible:
  assumes "expiresAt d = Some e" and "e < now"
  shows "\<not> isAccessible now d"
  using assms by (simp add: isAccessible_def isExpired_def)

theorem expired_never_accessible_witness:
  "\<not> isAccessible 1001 (example_url\<lparr> expiresAt := Some 1000 \<rparr>) \<and>
   \<not> isAccessible 1001 (example_url\<lparr> expiresAt := Some 1000, isActive := False,
        clicks := 7, maxClicks := Some 3 \<rparr>)"
  using expired_never_accessible [of "example_url\<lparr> expiresAt := Some 1000 \<rparr>" 1000 1001]
    expired_never_accessible [of "example_url\<lparr> expiresAt := Some 1000, isActive := False,
        clicks := 7, maxClicks := Some 3 \<rparr>" 1000 1001]
  by simp

text \<open>
  C5. After every \<open>addClick\<close> the click history has at most 100 entries and consists
  of the most recent 100 entries of the old history followed by the new entry; over
  any sequence of clicks on a history of at most 100 entries, the history kept is the
  most recent 100 of everything appended, the oldest being dropped first.
\<close>

theorem click_history_bounded_fifo:
  "length (clickHistory (addClick now cd d)) \<le> 100 \<and>
   clickHistory (addClick now cd d) = most_recent 100 (clickHistory d @ [click_entry now cd]) \<and>
   (length (clickHistory d) \<le> 100 \<longrightarrow>
      clickHistory (addClicks evs d) =
        most_recent 100 (clickHistory d @ map (\<lambda>(t, c). click_entry t c) evs))"
  by (simp add: clickHistory_addClick length_most_recent clickHistory_addClicks)

theorem click_history_bounded_fifo_witness:
  "clickHistory (addClick 7 example_click
      (example_url\<lparr> clickHistory := replicate 100 (click_entry 3 example_click) \<rparr>)) =
   replicate 99 (click_entry 3 example_click) @ [click_entry 7 example_click] \<and>
   clickHistory (addClicks [(7, example_click), (8, example_click)] example_url) =
     [click_entry 7 example_click, click_entry 8 example_click]"
  using click_history_bounded_fifo
      [of 7 example_click
          "example_url\<lparr> clickHistory := replicate 100 (click_entry 3 example_click) \<rparr>"]
    click_history_bounded_fifo
      [of 7 example_click example_url "[(7, example_click), (8, example_click)]"]
  by (simp add: most_recent_drop example_url_def new_Url_def)

text \<open>
  C9. Each \<open>addClick\<close> adds exactly 1 to the click counter and appends exactly one
  entry, its own, to the click history: below 100 entries the new history is the old
  one followed by that entry, and in general the old one followed by that entry, cut to
  the last 100. Starting from a record with a counter of 0 and an empty history, after
  any sequence of clicks the counter is the number of entries appended, the history is
  the last 100 of them, and so its length is the counter capped at 100.
\<close>

theorem clicks_counts_appended_entries:
  "clicks (addClick now cd d) = clicks d + 1 \<and>
   clickHistory (addClick now cd d) =
     most_recent 100 (clickHistory d @ [click_entry now cd]) \<and>
   (length (clickHistory d) < 100 \<longrightarrow>
      clickHistory (addClick now cd d) = clickHistory d @ [click_entry now cd]) \<and>
   (clicks d = 0 \<and> clickHistory d = [] \<longrightarrow>
      clickHistory (addClicks evs d) =
        most_recent 100 (map (\<lambda>(t, c). click_entry t c) evs) \<and>
      clicks (addClicks evs d) = length (map (\<lambda>(t, c). click_entry t c) evs) \<and>
      length (clickHistory (addClicks evs d)) = min 100 (clicks (addClicks evs d)))"
proof -
  have step: "clickHistory (addClick now cd d) =
      most_recent 100 (clickHistory d @ [click_entry now cd])"
    by (rule clickHistory_addClick)
  have short: "length (clickHistory d) < 100 \<Longrightarrow>
      clickHistory (addClick now cd d) = clickHistory d @ [click_entry now cd]"
    by (simp add: step most_recent_short)
  have fresh: "clickHistory (addClicks evs d) =
      most_recent 100 (map (\<lambda>(t, c). click_entry t c) evs)"
    if "clickHistory d = []"
    using clickHistory_addClicks [of d evs] that by simp
  from step short fresh show ?thesis
    by (simp add: clicks_addClick clicks_addClicks length_most_recent)
qed

theorem clicks_counts_appended_entries_witness:
  "clicks (addClick 7 example_click example_url) = 1 \<and>
   clickHistory (addClick 7 example_click example_url) = [click_entry 7 example_click] \<and>
   clicks (addClicks [(7, example_click), (8, example_click), (9, example_click)]
      example_url) = 3 \<and>
   clickHistory (addClicks [(7, example_click), (8, example_click), (9, example_click)]
      example_url) =
     [click_entry 7 example_click, click_entry 8 example_click, click_entry 9 example_click] \<and>
   length (clickHistory
     (addClicks [(7, example_click), (8, example_click), (9, example_click)]
        example_url)) = 3"
  using clicks_counts_appended_entries [of 7 example_click example_url "[]"]
    clicks_counts_appended_entries
      [of 7 example_click example_url
          "[(7, example_click), (8, example_click), (9, example_click)]"]
  by (simp add: most_recent_drop example_url_def new_Url_def)

section \<open>Properties of the rounding\<close>

lemma round_half_even_ge: "\<lfloor>q\<rfloor> \<le> round_half_even q"
  by (simp add: round_half_even_def Let_def)

lemma round_half_even_le: "round_half_even q \<le> \<lfloor>q\<rfloor> + 1"
  by (simp add: round_half_even_def Let_def)

lemma round_half_even_floor: "q - of_int \<lfloor>q\<rfloor> < 1 / 2 \<Longrightarrow> round_half_even q = \<lfloor>q\<rfloor>"
  by (simp add: round_half_even_def Let_def)

lemma one_le_bitlen: "0 < m \<Longrightarrow> 1 \<le> bitlen m"
  by (subst compute_bitlen) (simp add: bitlen_nonneg)

lemma binade_below_one: "0 < x \<Longrightarrow> x < 1 \<Longrightarrow> binade x \<le> - 1"
proof -
  assume x: "0 < x" "x < 1"
  then have "1 < 1 / x" by simp
  then have "2 \<le> \<lceil>1 / x\<rceil>" by linarith
  then have "1 \<le> bitlen (\<lceil>1 / x\<rceil> - 1)" by (intro one_le_bitlen) simp
  with x show ?thesis by (simp add: binade_def)
qed

lemma bitlen_le_6: "0 < m \<Longrightarrow> m < 64 \<Longrightarrow> bitlen m \<le> 6"
proof -
  assume m: "0 < m" "m < 64"
  have "bitlen m \<le> 6 \<longleftrightarrow> m < 2 ^ nat 6"
    using bitlen_le_iff_power [of m 6] m by simp
  with m show ?thesis by simp
qed

lemma bitlen_ge_6: "32 \<le> m \<Longrightarrow> 6 \<le> bitlen m"
proof -
  assume m: "32 \<le> m"
  then have "0 < m" by simp
  from bitlen_bounds [OF this] have "m < 2 ^ nat (bitlen m)" by simp
  with m have "(2::int) ^ 5 < 2 ^ nat (bitlen m)" by simp
  then have "5 < nat (bitlen m)" by (simp only: power_strict_increasing_iff)
  then show ?thesis by simp
qed


lemma binade_top: "32 \<le> x \<Longrightarrow> x < 64 \<Longrightarrow> binade x = 5"
proof -
  assume x: "32 \<le> x" "x < 64"
  then have "32 \<le> \<lfloor>x\<rfloor>" "\<lfloor>x\<rfloor> < 64" by linarith+
  then have "bitlen \<lfloor>x\<rfloor> = 6"
    using bitlen_le_6 [of "\<lfloor>x\<rfloor>"] bitlen_ge_6 [of "\<lfloor>x\<rfloor>"] by simp
  with x show ?thesis by (simp add: binade_def)
qed

lemma binade_le_5: "0 < x \<Longrightarrow> x < 64 \<Longrightarrow> binade x \<le> 5"
proof (cases "1 \<le> x")
  case True
  assume x: "0 < x" "x < 64"
  with True have "0 < \<lfloor>x\<rfloor>" "\<lfloor>x\<rfloor> < 64" by linarith+
  then have "bitlen \<lfloor>x\<rfloor> \<le> 6" by (rule bitlen_le_6)
  with True show ?thesis by (simp add: binade_def)
next
  case False
  assume "0 < x" "x < 64"
  with False binade_below_one [of x] show ?thesis by simp
qed

lemma ulp_pos: "0 < ulp x"
  by (simp add: ulp_def)

lemma ulp_le_one: "0 < x \<Longrightarrow> x < 64 \<Longrightarrow> ulp x \<le> 1"
proof -
  assume "0 < x" "x < 64"
  then have "binade x - 52 \<le> 0" using binade_le_5 [of x] by simp
  then have "(2::real) powi (binade x - 52) \<le> 2 powi 0"
    by (intro power_int_increasing) simp_all
  then show ?thesis by (simp add: ulp_def)
qed

lemma to_double_nonneg: "0 \<le> x \<Longrightarrow> 0 \<le> to_double x"
proof (cases "x = 0")
  case True
  then show ?thesis by (simp add: to_double_def)
next
  case False
  assume "0 \<le> x"
  with False have x: "0 < x" by simp
  have "0 \<le> x / ulp x" using x ulp_pos [of x] by simp
  then have "0 \<le> \<lfloor>x / ulp x\<rfloor>" by simp
  with round_half_even_ge [of "x / ulp x"] have "0 \<le> round_half_even (x / ulp x)"
    by linarith
  then have "0 \<le> of_int (round_half_even (x / ulp x)) * ulp x"
    using ulp_pos [of x] by simp
  with x show ?thesis by (simp add: to_double_def)
qed

lemma to_double_le_add_ulp: "0 < x \<Longrightarrow> to_double x \<le> x + ulp x"
proof -
  assume x: "0 < x"
  have "of_int (round_half_even (x / ulp x)) \<le> of_int \<lfloor>x / ulp x\<rfloor> + (1::real)"
    using round_half_even_le [of "x / ulp x"] by linarith
  also have "\<dots> \<le> x / ulp x + 1" by simp
  finally have "of_int (round_half_even (x / ulp x)) * ulp x \<le> (x / ulp x + 1) * ulp x"
    using ulp_pos [of x] by (simp only: mult_le_cancel_right_pos)
  also have "\<dots> = x + ulp x"
    using ulp_pos [of x] by (simp add: field_simps)
  finally show ?thesis using x by (simp add: to_double_def)
qed

lemma to_double_below_62:
  assumes "0 \<le> x" and "x \<le> 62 - 31 / 2 ^ 52"
  shows "to_double x < 62"
proof (cases "x < 32")
  case True
  show ?thesis
  proof (cases "x = 0")
    case True
    then show ?thesis by (simp add: to_double_def)
  next
    case False
    with assms have x: "0 < x" by simp
    from x True have "ulp x \<le> 1" by (intro ulp_le_one) simp_all
    with to_double_le_add_ulp [OF x] True show ?thesis by simp
  qed
next
  case False
  then have x: "32 \<le> x" "x < 64" "0 < x" using assms by simp_all
  have u: "ulp x = 1 / 2 ^ 47"
    using binade_top [OF x(1,2)] by (simp add: ulp_def power_int_minus_divide)
  define q where "q = x * 2 ^ 47"
  define N :: int where "N = 62 * 2 ^ 47"
  have q: "q \<le> of_int N - 31 / 32" using assms(2) by (simp add: q_def N_def)
  have r: "round_half_even q \<le> N - 1"
  proof (cases "\<lfloor>q\<rfloor> \<le> N - 2")
    case True
    with round_half_even_le [of q] show ?thesis by linarith
  next
    case False
    then have "N - 1 \<le> \<lfloor>q\<rfloor>" by linarith
    then have "(of_int (N - 1) :: real) \<le> of_int \<lfloor>q\<rfloor>"
      by (simp only: of_int_le_iff)
    then have "of_int N - 1 \<le> (of_int \<lfloor>q\<rfloor> :: real)" by simp
    with q have "q - of_int \<lfloor>q\<rfloor> < 1 / 2" by linarith
    then have "round_half_even q = \<lfloor>q\<rfloor>" by (rule round_half_even_floor)
    moreover have "\<lfloor>q\<rfloor> \<le> N - 1" using q by linarith
    ultimately show ?thesis by simp
  qed
  have xq: "x / ulp x = q" unfolding u q_def by simp
  have "to_double x = of_int (round_half_even (x / ulp x)) * ulp x"
    using x by (simp add: to_double_def)
  also have "\<dots> = of_int (round_half_even q) / 2 ^ 47"
    unfolding xq unfolding u by simp
  also have "\<dots> \<le> of_int (N - 1) / 2 ^ 47"
  proof -
    from r have "(of_int (round_half_even q) :: real) \<le> of_int (N - 1)"
      by (simp only: of_int_le_iff)
    then show ?thesis by (simp only: divide_right_mono zero_le_power zero_le_numeral)
  qed
  also have "\<dots> < 62" by (simp add: N_def)
  finally show ?thesis .
qed

lemma binade_half: "1 / 2 \<le> x \<Longrightarrow> x < 1 \<Longrightarrow> binade x = - 1"
proof -
  assume x: "1 / 2 \<le> x" "x < 1"
  then have "1 < 1 / x" "1 / x \<le> 2" by (simp_all add: field_simps)
  then have "\<lceil>1 / x\<rceil> = 2" by linarith
  with x show ?thesis by (simp add: binade_def compute_bitlen)
qed

lemma double_below_one:
  assumes "is_double r" and "0 \<le> r" and "r < 1"
  shows "r \<le> 1 - 1 / 2 ^ 53"
proof (cases "r < 1 / 2")
  case True
  then show ?thesis by simp
next
  case False
  then have r: "1 / 2 \<le> r" "0 < r" by simp_all
  have u: "ulp r = 1 / 2 ^ 53"
    using binade_half [OF r(1) assms(3)] by (simp add: ulp_def power_int_minus_divide)
  define k where "k = round_half_even (r / ulp r)"
  have "to_double r = of_int k * ulp r"
    using r by (simp add: to_double_def k_def)
  with assms(1) have eq: "r = of_int k / 2 ^ 53"
    unfolding u by (simp add: is_double_def)
  with assms(3) have "(of_int k :: real) < 2 ^ 53" by simp
  then have "(of_int k :: real) < of_int (2 ^ 53)" by simp
  then have "k < 2 ^ 53" by (simp only: of_int_less_iff)
  then have "k \<le> 2 ^ 53 - 1" by simp
  then have "(of_int k :: real) \<le> of_int (2 ^ 53 - 1)" by (simp only: of_int_le_iff)
  then have "(of_int k :: real) \<le> 2 ^ 53 - 1" by simp
  then have "of_int k / 2 ^ 53 \<le> ((2 ^ 53 - 1) / 2 ^ 53 :: real)"
    by (simp only: divide_right_mono zero_le_power zero_le_numeral)
  with eq show ?thesis by simp
qed

lemma random_index_range:
  assumes "is_double r" and "0 \<le> r" and "r < 1"
  shows "0 \<le> \<lfloor>to_double (r * 62)\<rfloor> \<and> \<lfloor>to_double (r * 62)\<rfloor> < 62"
proof -
  from double_below_one [OF assms] have hi: "r * 62 \<le> 62 - 31 / 2 ^ 52" by simp
  have lo: "0 \<le> r * 62" using assms(2) by simp
  have "to_double (r * 62) < 62" using lo hi by (rule to_double_below_62)
  moreover have "0 \<le> to_double (r * 62)" using lo by (rule to_double_nonneg)
  ultimately show ?thesis by (simp add: floor_less_iff)
qed

lemmas double_eval =
  to_double_def ulp_def binade_def round_half_even_def is_double_def compute_bitlen Let_def

section \<open>Properties of the generators\<close>

lemma chars_alnum: "list_all is_alnum chars"
  by (simp add: chars_def is_alnum_def)

lemma length_chars: "length chars = 62"
  by (simp add: chars_def)

lemma charAt_random:
  assumes "is_double r" and "0 \<le> r" and "r < 1"
  shows "\<exists>c. charAt chars \<lfloor>to_double (r * real (length chars))\<rfloor> = [c] \<and> is_alnum c"
proof -
  define k where "k = \<lfloor>to_double (r * 62)\<rfloor>"
  have k: "0 \<le> k" "k < 62"
    using random_index_range [OF assms] by (simp_all add: k_def)
  then have "nat k < 62" by linarith
  then have n: "nat k < length chars" by (simp only: length_chars)
  then have "is_alnum (chars ! nat k)"
    using chars_alnum by (simp add: list_all_length)
  moreover have "charAt chars k = [chars ! nat k]"
    using k by (simp add: charAt_def length_chars)
  ultimately show ?thesis by (simp add: length_chars k_def)
qed

lemma index_str_byte:
  "\<exists>c. index_str chars (unat (b :: 8 word) mod length chars) = [c] \<and> is_alnum c"
proof -
  have "unat b mod length chars < length chars" by (simp add: length_chars)
  then show ?thesis
    using chars_alnum by (simp add: index_str_def list_all_length)
qed

lemma shortCode_loop_props:
  "(\<And>j. i \<le> j \<Longrightarrow> j < len \<Longrightarrow> is_double (rnd j) \<and> 0 \<le> rnd j \<and> rnd j < 1) \<Longrightarrow>
   length (shortCode_loop len i rnd result) = length result + (len - i) \<and>
   (list_all is_alnum result \<longrightarrow> list_all is_alnum (shortCode_loop len i rnd result))"
proof (induction len i rnd result rule: shortCode_loop.induct)
  case (1 len i rnd result)
  show ?case
  proof (cases "i < len")
    case True
    obtain c where c:
      "charAt chars \<lfloor>to_double (rnd i * real (length chars))\<rfloor> = [c]" "is_alnum c"
      using charAt_random [of "rnd i"] "1.prems" [of i] True by auto
    have "length (shortCode_loop len (i + 1) rnd (result @ [c])) =
            length (result @ [c]) + (len - (i + 1)) \<and>
          (list_all is_alnum (result @ [c]) \<longrightarrow>
             list_all is_alnum (shortCode_loop len (i + 1) rnd (result @ [c])))"
      using "1.IH" [OF True] "1.prems" c by simp
    then show ?thesis using True c by (subst (1 2) shortCode_loop.simps) auto
  next
    case False
    then show ?thesis by simp
  qed
qed

lemma secure_loop_props:
  "i + (len - i) \<le> length bytes \<Longrightarrow>
   length (secure_loop len i bytes result) = length result + (len - i) \<and>
   (list_all is_alnum result \<longrightarrow> list_all is_alnum (secure_loop len i bytes result))"
proof (induction len i bytes result rule: secure_loop.induct)
  case (1 len i bytes result)
  show ?case
  proof (cases "i < len")
    case True
    then have "i < length bytes" using "1.prems" by simp
    then obtain b where b: "byte_at bytes i = Some b" by (simp add: byte_at_def)
    obtain c where c: "index_str chars (unat b mod length chars) = [c]" "is_alnum c"
      using index_str_byte by blast
    have "length (secure_loop len (i + 1) bytes (result @ [c])) =
            length (result @ [c]) + (len - (i + 1)) \<and>
          (list_all is_alnum (result @ [c]) \<longrightarrow>
             list_all is_alnum (secure_loop len (i + 1) bytes (result @ [c])))"
      using "1.IH" [OF True] "1.prems" b c True by simp
    then show ?thesis using True b c by (subst (1 2) secure_loop.simps) auto
  next
    case False
    then show ?thesis by simp
  qed
qed

text \<open>The rounding of the product decides the character: the exact product of this
  double and 62 lies below 16, the double product is 16.\<close>

lemma rounded_product_draws_Q:
  "is_double (1162219258676257 / 2 ^ 52) \<and>
   \<lfloor>1162219258676257 / 2 ^ 52 * (62 :: real)\<rfloor> = 15 \<and>
   generateShortCode (Some 1) (\<lambda>i. 1162219258676257 / 2 ^ 52) = ''Q''"
  by (simp add: double_eval generateShortCode_def length_or_default_def chars_def charAt_def)

text \<open>
  C8. For every requested length \<open>n\<close>, with every value of \<open>Math.random()\<close> a double in
  \<open>[0, 1)\<close> and a buffer of exactly \<open>n\<close> random bytes, both generators return a
  string of exactly \<open>n\<close> characters, all of them in \<open>[A-Za-z0-9]\<close>; called without a
  length, both return exactly 6 such characters.
\<close>

theorem generated_codes_length_and_alphabet:
  assumes "\<forall>i < n. is_double (rnd i) \<and> 0 \<le> rnd i \<and> rnd i < 1"
    and "length bytes = n"
  shows "length (generateShortCode (Some n) rnd) = n \<and>
         list_all is_alnum (generateShortCode (Some n) rnd) \<and>
         length (generateSecureShortCode (Some n) bytes) = n \<and>
         list_all is_alnum (generateSecureShortCode (Some n) bytes) \<and>
         (n = 6 \<longrightarrow>
            length (generateShortCode None rnd) = 6 \<and>
            list_all is_alnum (generateShortCode None rnd) \<and>
            length (generateSecureShortCode None bytes) = 6 \<and>
            list_all is_alnum (generateSecureShortCode None bytes))"
proof -
  have g: "length (shortCode_loop n 0 rnd []) = n \<and>
           list_all is_alnum (shortCode_loop n 0 rnd [])"
    using shortCode_loop_props [of 0 n rnd "[]"] assms(1) by simp
  have s: "length (secure_loop n 0 bytes []) = n \<and>
           list_all is_alnum (secure_loop n 0 bytes [])"
    using secure_loop_props [of 0 n bytes "[]"] assms(2) by simp
  from g s show ?thesis
    by (auto simp: generateShortCode_def generateSecureShortCode_def length_or_default_def)
qed

theorem generated_codes_length_and_alphabet_witness:
  "length (generateShortCode (Some 3)
      (\<lambda>i. if i = 0 then 0 else if i = 1 then 1 / 2 else 1162219258676257 / 2 ^ 52)) = 3 \<and>
   list_all is_alnum (generateShortCode (Some 3)
      (\<lambda>i. if i = 0 then 0 else if i = 1 then 1 / 2 else 1162219258676257 / 2 ^ 52)) \<and>
   length (generateSecureShortCode (Some 3) [0, 61, 255]) = 3 \<and>
   list_all is_alnum (generateSecureShortCode (Some 3) [0, 61, 255]) \<and>
   length (generateShortCode None (\<lambda>i. 1 / 2)) = 6 \<and>
   list_all is_alnum (generateShortCode None (\<lambda>i. 1 / 2)) \<and>
   length (generateSecureShortCode None [0, 61, 62, 127, 200, 255]) = 6 \<and>
   list_all is_alnum (generateSecureShortCode None [0, 61, 62, 127, 200, 255])"
proof -
  have r3: "\<forall>i < 3. is_double
        ((\<lambda>i. if i = 0 then 0 else if i = 1 then 1 / 2 else 1162219258676257 / 2 ^ 52) i) \<and>
      0 \<le> (\<lambda>i. if i = 0 then 0 else if i = 1 then 1 / 2
                 else (1162219258676257 / 2 ^ 52 :: real)) i \<and>
      (\<lambda>i. if i = 0 then 0 else if i = 1 then 1 / 2
            else (1162219258676257 / 2 ^ 52 :: real)) i < 1"
    by (simp add: double_eval)
  have r6: "\<forall>i < 6. is_double ((\<lambda>i. 1 / 2) i) \<and> 0 \<le> (\<lambda>i. 1 / 2 :: real) i \<and>
      (\<lambda>i. 1 / 2 :: real) i < 1"
    by (simp add: double_eval)
  have b3: "length [0, 61, 255 :: 8 word] = 3" by simp
  have b6: "length [0, 61, 62, 127, 200, 255 :: 8 word] = 6" by simp
  from generated_codes_length_and_alphabet [OF r3 b3]
    generated_codes_length_and_alphabet [OF r6 b6]
  show ?thesis by simp
qed

section \<open>Properties of the store and of the handlers\<close>

lemma find_snoc_fresh:
  "\<not> list_ex P xs \<Longrightarrow> P x \<Longrightarrow> find P (xs @ [x]) = Some x"
  by (induction xs) auto

lemma replace_by_id_snoc_fresh:
  "\<not> list_ex (\<lambda>e. doc_id e = doc_id d) xs \<Longrightarrow> doc_id x = doc_id d \<Longrightarrow>
   replace_by_id d (xs @ [x]) = xs @ [d]"
  by (induction xs) auto

lemma chars_no_space: "list_all (\<lambda>c. \<not> is_space c) chars"
  by (simp add: chars_def is_space_def)

lemma trim_no_space: "list_all (\<lambda>c. \<not> is_space c) s \<Longrightarrow> trim s = s"
proof -
  assume a: "list_all (\<lambda>c. \<not> is_space c) s"
  have 1: "dropWhile is_space s = s"
    using a by (cases s) simp_all
  have "list_all (\<lambda>c. \<not> is_space c) (rev s)"
    using a by (simp add: list_all_iff)
  then have 2: "dropWhile is_space (rev s) = rev s"
    by (cases "rev s") simp_all
  show ?thesis by (simp add: trim_def 1 2)
qed

lemma charAt_subset: "set (charAt s i) \<subseteq> set s"
proof (cases "0 \<le> i \<and> i < int (length s)")
  case True
  then have "nat i < length s" by linarith
  then have "s ! nat i \<in> set s" by (rule nth_mem)
  moreover have "charAt s i = [s ! nat i]" using True by (simp add: charAt_def)
  ultimately show ?thesis by simp
next
  case False
  then have "charAt s i = []" by (simp add: charAt_def)
  then show ?thesis by simp
qed

lemma shortCode_loop_chars:
  "set result \<subseteq> set chars \<Longrightarrow> set (shortCode_loop len i rnd result) \<subseteq> set chars"
proof (induction len i rnd result rule: shortCode_loop.induct)
  case (1 len i rnd result)
  show ?case
  proof (cases "i < len")
    case True
    have "set (result @ charAt chars \<lfloor>to_double (rnd i * real (length chars))\<rfloor>) \<subseteq> set chars"
      using "1.prems" charAt_subset [of chars] by simp
    from "1.IH" [OF True this] show ?thesis
      using True by (subst shortCode_loop.simps) simp
  next
    case False
    then show ?thesis using "1.prems" by simp
  qed
qed

lemma trim_generateShortCode: "trim (generateShortCode len rnd) = generateShortCode len rnd"
proof -
  have "set (generateShortCode len rnd) \<subseteq> set chars"
    unfolding generateShortCode_def by (rule shortCode_loop_chars) simp
  moreover have "\<forall>c \<in> set chars. \<not> is_space c"
    using chars_no_space by (simp only: list_all_iff)
  ultimately have "\<forall>c \<in> set (generateShortCode len rnd). \<not> is_space c"
    by blast
  then have "list_all (\<lambda>c. \<not> is_space c) (generateShortCode len rnd)"
    by (simp only: list_all_iff)
  then show ?thesis by (rule trim_no_space)
qed

lemma generation_loop_Some:
  "generation_loop rnd db attempts queried = (Some code, queried') \<Longrightarrow>
   queried' \<noteq> [] \<and> last queried' = code \<and> trim code = code \<and>
   findOne_shortCode db code = None"
proof (induction rnd db attempts queried rule: generation_loop.induct)
  case (1 rnd db attempts queried)
  note step = generation_loop.simps [of rnd db attempts queried]
  show ?case
  proof (cases "attempts + 1 \<ge> maxAttempts")
    case True
    with "1.prems" step show ?thesis by simp
  next
    case False
    show ?thesis
    proof (cases "findOne_shortCode db (generateShortCode None rnd)")
      case None
      with False "1.prems" step
      have "code = generateShortCode None rnd"
        and "queried' = queried @ [generateShortCode None rnd]"
        by auto
      with None show ?thesis by (simp add: trim_generateShortCode)
    next
      case (Some e)
      with False "1.prems" step have
        "generation_loop (after_draws 6 rnd) db (attempts + 1)
           (queried @ [generateShortCode None rnd]) = (Some code, queried')"
        by simp
      with "1.IH" [OF False Some] show ?thesis .
    qed
  qed
qed

text \<open>The loop looks up at most \<open>maxAttempts - 1\<close> codes.\<close>

lemma generation_loop_lookups:
  "length (snd (generation_loop rnd db attempts queried)) \<le>
     length queried + (maxAttempts - 1 - attempts)"
proof (induction rnd db attempts queried rule: generation_loop.induct)
  case (1 rnd db attempts queried)
  note step = generation_loop.simps [of rnd db attempts queried]
  show ?case
  proof (cases "attempts + 1 \<ge> maxAttempts")
    case True
    with step show ?thesis by simp
  next
    case False
    show ?thesis
    proof (cases "findOne_shortCode db (generateShortCode None rnd)")
      case None
      with False step show ?thesis by simp
    next
      case (Some e)
      from "1.IH" [OF False Some] False Some step show ?thesis by simp
    qed
  qed
qed

lemma save_new_Some:
  "save_new now d0 db = Some (d, db') \<Longrightarrow>
   d = d0\<lparr> updatedAt := now \<rparr> \<and> db' = db @ [d] \<and>
   \<not> list_ex (\<lambda>e. shortCode e = shortCode d0) db \<and>
   \<not> list_ex (\<lambda>e. doc_id e = doc_id d0) db"
  by (auto simp: save_new_def Let_def list_ex_iff split: if_splits)

lemma create_url_Created:
  assumes "create_url lib new_id t_new t_save user b db code queried =
             (Json 201 True msg (Some d), db', queried')"
  shows "originalUrl d = trim (body_originalUrl b)" and "shortCode d = trim code"
    and "clicks d = 0" and "isActive d" and "maxClicks d = body_maxClicks b"
    and "db' = db @ [d]" and "queried' = queried"
    and "\<not> list_ex (\<lambda>e. shortCode e = shortCode d) db"
    and "\<not> list_ex (\<lambda>e. doc_id e = doc_id d) db"
proof -
  obtain d0 where d0: "save_new t_save d0 db = Some (d, db')"
    and fields: "originalUrl d0 = trim (body_originalUrl b)" "shortCode d0 = trim code"
      "clicks d0 = 0" "isActive d0" "maxClicks d0 = body_maxClicks b"
    and q: "queried' = queried"
    using assms
    by (simp add: create_url_def new_Url_def split: option.splits prod.splits)
  from save_new_Some [OF d0] fields q
  show "originalUrl d = trim (body_originalUrl b)" and "shortCode d = trim code"
    and "clicks d = 0" and "isActive d" and "maxClicks d = body_maxClicks b"
    and "db' = db @ [d]" and "queried' = queried"
    and "\<not> list_ex (\<lambda>e. shortCode e = shortCode d) db"
    and "\<not> list_ex (\<lambda>e. doc_id e = doc_id d) db"
    by simp_all
qed

lemma shorten_generated_Created:
  assumes "shorten lib rnd new_id t_new t_save user b db =
             (Json 201 True msg (Some d), db', queried)"
    and "body_customCode b = None"
  shows "validation_ok lib b \<and>
         (\<exists>code. generation_loop rnd db 0 [] = (Some code, queried) \<and>
            create_url lib new_id t_new t_save user b db code queried =
              (Json 201 True msg (Some d), db', queried))"
proof -
  have v: "validation_ok lib b" and u: "isValidUrl lib (body_originalUrl b)"
    using assms by (auto simp: shorten_def split: if_splits)
  with assms have g: "shorten_generated lib rnd new_id t_new t_save user b db =
      (Json 201 True msg (Some d), db', queried)"
    by (simp add: shorten_def)
  obtain r q where r: "generation_loop rnd db 0 [] = (r, q)" by fastforce
  show ?thesis
  proof (cases r)
    case None
    with g r show ?thesis by (simp add: shorten_generated_def)
  next
    case (Some code)
    with g r have c: "create_url lib new_id t_new t_save user b db code q =
        (Json 201 True msg (Some d), db', queried)"
      by (simp add: shorten_generated_def)
    from create_url_Created(7) [OF c] have "queried = q" .
    with c r Some v show ?thesis by simp
  qed
qed

lemmas example_defs =
  example_lib_def example_body_def example_url_def example_data_def example_request_def
  example_click_def

lemmas shorten_eval =
  shorten_def shorten_generated_def shorten_custom_def create_url_def save_new_def
  schema_valid_def new_Url_def validation_ok_def isValidUrl_def opt_length_le_def
  matches_code_def is_code_char_def is_alnum_def truthy_def trim_def is_space_def
  findOne_shortCode_def maxAttempts_def after_draws_def generateShortCode_def
  length_or_default_def chars_def charAt_def double_eval

lemmas redirect_eval =
  redirect_def isAccessible_def isExpired_def hasReachedMaxClicks_def gone_message_def
  addClick_def pushClick_def trimHistory_def click_entry_def request_clickData_def
  or_default_def or_else_def truthy_def save_existing_def findOne_shortCode_def Let_def

text \<open>
  C1, as amended. When a valid URL is shortened without a custom code and the record is
  created, the record stores the URL under the generated code (the last code looked up)
  with a click counter of 0; a following \<open>GET /:shortCode\<close> on that code, made while
  the record has not expired, answers with a 302 redirect to the original URL and
  leaves the stored counter at 1. The URL is taken without surrounding white space, as
  the validator accepts it.
\<close>

theorem shorten_then_redirect:
  assumes "shorten lib rnd new_id t_new t_save user b db =
             (Json 201 True msg (Some d), db', queried)"
    and "body_customCode b = None"
    and "trim (body_originalUrl b) = body_originalUrl b"
    and "\<not> isExpired t_access d"
    and "param_shortCode req = shortCode d"
  shows "originalUrl d = body_originalUrl b \<and>
         shortCode d = last queried \<and>
         clicks d = 0 \<and>
         findOne_shortCode db' (shortCode d) = Some d \<and>
         fst (redirect t_access t_reason t_click t_visit req db') =
           Redirect 302 (body_originalUrl b) \<and>
         map_option clicks
           (findOne_shortCode (snd (redirect t_access t_reason t_click t_visit req db'))
              (shortCode d)) = Some 1"
proof -
  from shorten_generated_Created [OF assms(1,2)] obtain code where
    v: "validation_ok lib b" and
    g: "generation_loop rnd db 0 [] = (Some code, queried)" and
    c: "create_url lib new_id t_new t_save user b db code queried =
          (Json 201 True msg (Some d), db', queried)"
    by blast
  from generation_loop_Some [OF g] have code: "last queried = code" "trim code = code"
    by simp_all
  note url = create_url_Created(1) [OF c]
    and sc = create_url_Created(2) [OF c]
    and cl = create_url_Created(3) [OF c]
    and act = create_url_Created(4) [OF c]
    and mx = create_url_Created(5) [OF c]
    and db' = create_url_Created(6) [OF c]
    and fresh_code = create_url_Created(8) [OF c]
    and fresh_id = create_url_Created(9) [OF c]
  have found: "findOne_shortCode db' (shortCode d) = Some d"
    unfolding findOne_shortCode_def db'
    by (rule find_snoc_fresh [OF fresh_code]) simp
  have "\<not> hasReachedMaxClicks d"
    using v mx cl by (auto simp: hasReachedMaxClicks_def validation_ok_def split: option.splits)
  with act assms(4) have acc: "isAccessible t_access d"
    by (simp add: isAccessible_def)
  define d' where "d' = addClick t_click (request_clickData req) d"
  define d'' where "d'' = d'\<lparr> updatedAt := t_visit \<rparr>"
  have r: "redirect t_access t_reason t_click t_visit req db' =
           (Redirect 302 (originalUrl d'), save_existing t_visit d' db')"
    using found acc assms(5) by (simp add: redirect_def d'_def Let_def)
  have id: "doc_id d'' = doc_id d" and sc'': "shortCode d'' = shortCode d"
    and cl'': "clicks d'' = 1" and url'': "originalUrl d' = originalUrl d"
    by (simp_all add: d''_def d'_def addClick_frame clicks_addClick cl)
  have "\<not> list_ex (\<lambda>e. doc_id e = doc_id d'') db"
    using fresh_id by (simp add: id)
  then have saved: "save_existing t_visit d' db' = db @ [d'']"
    unfolding save_existing_def db' d''_def [symmetric]
    by (rule replace_by_id_snoc_fresh) (simp add: id)
  have "\<not> list_ex (\<lambda>e. shortCode e = shortCode d'') db"
    using fresh_code by (simp add: sc'')
  then have "find (\<lambda>e. shortCode e = shortCode d'') (db @ [d'']) = Some d''"
    by (rule find_snoc_fresh) simp
  then have found'': "findOne_shortCode (db @ [d'']) (shortCode d) = Some d''"
    by (simp add: findOne_shortCode_def sc'')
  show ?thesis
    using url sc code cl found r saved found'' cl'' url'' assms(3) by simp
qed

theorem shorten_then_redirect_witness:
  "shorten example_lib (\<lambda>i. 0) 1 0 0 None example_body [] =
     (Json 201 True ''URL shortened successfully'' (Some example_url), [example_url],
      [''AAAAAA'']) \<and>
   fst (redirect 5 6 7 8 example_request [example_url]) =
     Redirect 302 ''https://example.com/a/very/long/path'' \<and>
   map_option clicks
     (findOne_shortCode (snd (redirect 5 6 7 8 example_request [example_url])) ''AAAAAA'') =
     Some 1"
proof -
  have s: "shorten example_lib (\<lambda>i. 0) 1 0 0 None example_body [] =
     (Json 201 True ''URL shortened successfully'' (Some example_url), [example_url],
      [''AAAAAA''])"
    by (simp add: shorten_eval example_defs)
  have c: "body_customCode example_body = None"
    by (simp add: example_body_def)
  have t: "trim (body_originalUrl example_body) = body_originalUrl example_body"
    by (simp add: example_body_def trim_def is_space_def)
  have e: "\<not> isExpired 5 example_url"
    by (simp add: isExpired_def example_url_def new_Url_def example_data_def)
  have p: "param_shortCode example_request = shortCode example_url"
    by (simp add: example_request_def example_url_def new_Url_def example_data_def trim_def
        is_space_def)
  from shorten_then_redirect [OF s c t e p, of 6 7 8] s show ?thesis
    by (simp add: example_body_def example_url_def new_Url_def example_data_def trim_def
        is_space_def)
qed

text \<open>
  C1, as stated, fails when the request asks for an expiry that has passed at the
  visit: the record is created, and the visit is answered with 410.
\<close>

theorem expired_at_creation_counterexample:
  "shorten example_lib (\<lambda>i. 0) 1 0 0 None
     (example_body\<lparr> body_expiresAt := Some ''2000-01-01'' \<rparr>) [] =
     (Json 201 True ''URL shortened successfully''
        (Some (example_url\<lparr> expiresAt := Some 946684800000 \<rparr>)),
      [example_url\<lparr> expiresAt := Some 946684800000 \<rparr>], [''AAAAAA'']) \<and>
   body_customCode (example_body\<lparr> body_expiresAt := Some ''2000-01-01'' \<rparr>) = None \<and>
   redirect 1700000000000 1700000000001 1700000000002 1700000000003 example_request
     [example_url\<lparr> expiresAt := Some 946684800000 \<rparr>] =
     (Json 410 False ''This short URL has expired'' None,
      [example_url\<lparr> expiresAt := Some 946684800000 \<rparr>])"
  by (simp add: shorten_eval redirect_eval example_defs)

text \<open>
  C2. The store holds the code \<open>AAAAAA\<close>; the random source yields that code nine
  times and \<open>ffffff\<close>, which the store does not hold, the tenth time. The handler
  looks up the first nine candidates only and answers 500 without looking up the
  tenth.
\<close>

theorem tenth_candidate_never_checked:
  "shorten example_lib (\<lambda>i. if i < 54 then 0 else 1 / 2) 2 0 0 None example_body
     [example_url] =
     (Json 500 False ''Unable to generate unique short code. Please try again.'' None,
      [example_url], [''AAAAAA'', ''AAAAAA'', ''AAAAAA'', ''AAAAAA'', ''AAAAAA'', ''AAAAAA'',
       ''AAAAAA'', ''AAAAAA'', ''AAAAAA'']) \<and>
   generateShortCode None (after_draws 54 (\<lambda>i. if i < 54 then 0 else 1 / 2)) = ''ffffff'' \<and>
   findOne_shortCode [example_url] ''ffffff'' = None"
  by (simp add: shorten_eval example_defs)

text \<open>
  C6. When the record is found and is not accessible, the response is 410, the store
  is unchanged and the message is chosen in the order expired, click limit reached,
  deactivated: an expired record reports the expiry whatever else holds, and a record
  at its limit that is not expired reports the limit even when deactivated. The clock
  does not run backwards between the two readings.
\<close>

theorem gone_reason_priority:
  assumes "findOne_shortCode db (param_shortCode req) = Some d"
    and "\<not> isAccessible t_access d"
    and "t_access \<le> t_reason"
  shows "redirect t_access t_reason t_click t_save req db =
           (Json 410 False
              (if isExpired t_reason d then ''This short URL has expired''
               else if hasReachedMaxClicks d
               then ''This short URL has reached its maximum click limit''
               else ''This short URL has been deactivated'') None, db) \<and>
         (isExpired t_access d \<longrightarrow> isExpired t_reason d)"
proof -
  have mono: "isExpired t_access d \<Longrightarrow> isExpired t_reason d"
    using assms(3) by (auto simp: isExpired_def split: option.splits)
  have "\<not> isExpired t_reason d \<Longrightarrow> \<not> hasReachedMaxClicks d \<Longrightarrow> \<not> isActive d"
    using assms(2) mono by (auto simp: isAccessible_def)
  then show ?thesis
    using assms(1,2) mono by (auto simp: redirect_def gone_message_def)
qed

theorem gone_reason_priority_witness:
  "redirect 5 6 7 8 example_request
     [example_url\<lparr> expiresAt := Some 3, isActive := False, clicks := 2,
        maxClicks := Some 2 \<rparr>] =
     (Json 410 False ''This short URL has expired'' None,
      [example_url\<lparr> expiresAt := Some 3, isActive := False, clicks := 2,
         maxClicks := Some 2 \<rparr>]) \<and>
   redirect 5 6 7 8 example_request
     [example_url\<lparr> isActive := False, clicks := 2, maxClicks := Some 2 \<rparr>] =
     (Json 410 False ''This short URL has reached its maximum click limit'' None,
      [example_url\<lparr> isActive := False, clicks := 2, maxClicks := Some 2 \<rparr>]) \<and>
   redirect 5 6 7 8 example_request [example_url\<lparr> isActive := False \<rparr>] =
     (Json 410 False ''This short URL has been deactivated'' None,
      [example_url\<lparr> isActive := False \<rparr>])"
  using gone_reason_priority
      [of "[example_url\<lparr> expiresAt := Some 3, isActive := False, clicks := 2,
              maxClicks := Some 2 \<rparr>]" example_request
          "example_url\<lparr> expiresAt := Some 3, isActive := False, clicks := 2,
              maxClicks := Some 2 \<rparr>" 5 6 7 8]
    gone_reason_priority
      [of "[example_url\<lparr> isActive := False, clicks := 2, maxClicks := Some 2 \<rparr>]"
          example_request
          "example_url\<lparr> isActive := False, clicks := 2, maxClicks := Some 2 \<rparr>" 5 6 7 8]
    gone_reason_priority
      [of "[example_url\<lparr> isActive := False \<rparr>]" example_request
          "example_url\<lparr> isActive := False \<rparr>" 5 6 7 8]
  by (simp add: findOne_shortCode_def isAccessible_def isExpired_def hasReachedMaxClicks_def
      example_defs new_Url_def trim_def is_space_def)

text \<open>
  C7. On a request that passes validation and supplies a custom code, when the store
  holds a record with exactly that short code the handler makes one lookup, of that
  code, answers 400 and leaves the store unchanged.
\<close>

theorem custom_code_taken_rejected:
  assumes "validation_ok lib b"
    and "isValidUrl lib (body_originalUrl b)"
    and "body_customCode b = Some code"
    and "list_ex (\<lambda>e. shortCode e = code) db"
  shows "shorten lib rnd new_id t_new t_save user b db =
           (Json 400 False ''Custom code is already taken'' None, db, [code])"
proof -
  have "code \<noteq> []"
    using assms(1,3) by (auto simp: validation_ok_def)
  moreover have "findOne_shortCode db code \<noteq> None"
    using assms(4) by (auto simp: findOne_shortCode_def find_None_iff list_ex_iff)
  ultimately show ?thesis
    using assms(1,2,3) by (auto simp: shorten_def shorten_custom_def)
qed

theorem custom_code_taken_rejected_witness:
  "shorten example_lib (\<lambda>i. 0) 2 0 0 None (example_body\<lparr> body_customCode := Some ''AAAAAA'' \<rparr>)
     [example_url] =
     (Json 400 False ''Custom code is already taken'' None, [example_url], [''AAAAAA''])"
  using custom_code_taken_rejected
      [of example_lib "example_body\<lparr> body_customCode := Some ''AAAAAA'' \<rparr>" "''AAAAAA''"
          "[example_url]" "\<lambda>i. 0" 2 0 0 None]
  by (simp add: validation_ok_def isValidUrl_def opt_length_le_def matches_code_def
      is_code_char_def is_alnum_def example_defs new_Url_def trim_def is_space_def)

lemma findOneAndDelete_others:
  "(\<And>e. q e \<Longrightarrow> \<not> p e) \<Longrightarrow>
   filter p (snd (findOneAndDelete q db)) = filter p db"
  by (induction db) (auto split: prod.splits)

lemma findOneAndDelete_None:
  "\<not> list_ex q db \<Longrightarrow> findOneAndDelete q db = (None, db)"
  by (induction db) auto

lemma filter_filter_others:
  "(\<And>e. q e \<Longrightarrow> \<not> p e) \<Longrightarrow> filter p (filter (\<lambda>e. \<not> q e) db) = filter p db"
  by (induction db) auto

lemma cast_all_None_delete:
  "cast_all cast params = None \<Longrightarrow> params \<noteq> [] \<Longrightarrow>
   bulk_delete cast uid (Some params) db =
     (Json 500 False ''Server error during bulk deletion'' None, db)"
  by (cases params) (simp_all add: bulk_delete_def)

text \<open>
  C10, as amended. The single delete and the bulk delete leave the records of every
  other owner, and the anonymous ones, exactly as they were, whatever ids the request
  names. The single delete answers 404 and changes nothing when the id of the request
  is a well-formed id and no record with it belongs to the caller; an id that the
  store cannot cast is answered 500, the store unchanged.
\<close>

theorem delete_leaves_other_users_records:
  "filter (\<lambda>d. userId d \<noteq> Some uid) (snd (delete_url cast uid param_id db)) =
     filter (\<lambda>d. userId d \<noteq> Some uid) db \<and>
   filter (\<lambda>d. userId d \<noteq> Some uid) (snd (bulk_delete cast uid urlIds db)) =
     filter (\<lambda>d. userId d \<noteq> Some uid) db \<and>
   (\<forall>url_id. cast param_id = Some url_id \<and>
       \<not> list_ex (\<lambda>d. doc_id d = url_id \<and> userId d = Some uid) db \<longrightarrow>
      delete_url cast uid param_id db = (Json 404 False ''URL not found'' None, db)) \<and>
   (cast param_id = None \<longrightarrow>
      delete_url cast uid param_id db =
        (Json 500 False ''Server error during URL deletion'' None, db))"
proof -
  let ?p = "\<lambda>d. userId d \<noteq> Some uid"
  have one: "filter ?p (snd (delete_url cast uid param_id db)) = filter ?p db"
  proof (cases "cast param_id")
    case None
    then show ?thesis by (simp add: delete_url_def)
  next
    case (Some url_id)
    let ?q = "\<lambda>d. doc_id d = url_id \<and> userId d = Some uid"
    have "snd (delete_url cast uid param_id db) = db \<or>
          snd (delete_url cast uid param_id db) = snd (findOneAndDelete ?q db)"
      using Some by (auto simp: delete_url_def split: prod.splits option.splits)
    moreover have "filter ?p (snd (findOneAndDelete ?q db)) = filter ?p db"
      by (rule findOneAndDelete_others) simp
    ultimately show ?thesis by auto
  qed
  have many: "filter ?p (snd (bulk_delete cast uid urlIds db)) = filter ?p db"
  proof (cases urlIds)
    case None
    then show ?thesis by (simp add: bulk_delete_def)
  next
    case (Some params)
    show ?thesis
    proof (cases "cast_all cast params")
      case None
      with Some show ?thesis by (simp add: bulk_delete_def)
    next
      case (Some ids)
      have "filter ?p (filter (\<lambda>e. \<not> (List.member ids (doc_id e) \<and> userId e = Some uid)) db) =
            filter ?p db"
        by (rule filter_filter_others) simp
      with Some \<open>urlIds = Some params\<close> show ?thesis
        by (simp add: bulk_delete_def deleteMany_def)
    qed
  qed
  have nf: "delete_url cast uid param_id db = (Json 404 False ''URL not found'' None, db)"
    if "cast param_id = Some url_id"
      and "\<not> list_ex (\<lambda>d. doc_id d = url_id \<and> userId d = Some uid) db" for url_id
    using that by (simp add: delete_url_def findOneAndDelete_None)
  have err: "cast param_id = None \<Longrightarrow>
      delete_url cast uid param_id db =
        (Json 500 False ''Server error during URL deletion'' None, db)"
    by (simp add: delete_url_def)
  from one many nf err show ?thesis by blast
qed

theorem delete_leaves_other_users_records_witness:
  "delete_url example_cast 3 ''64b7f0c2a1d3e4f5a6b7c8d1''
     [example_url, example_url\<lparr> doc_id := 2, userId := Some 3 \<rparr>] =
     (Json 404 False ''URL not found'' None,
      [example_url, example_url\<lparr> doc_id := 2, userId := Some 3 \<rparr>]) \<and>
   filter (\<lambda>d. userId d \<noteq> Some 3)
     (snd (bulk_delete example_cast 3
        (Some [''64b7f0c2a1d3e4f5a6b7c8d1'', ''64b7f0c2a1d3e4f5a6b7c8d2''])
        [example_url, example_url\<lparr> doc_id := 2, userId := Some 3 \<rparr>])) = [example_url]"
  using delete_leaves_other_users_records
      [of 3 example_cast "''64b7f0c2a1d3e4f5a6b7c8d1''"
          "[example_url, example_url\<lparr> doc_id := 2, userId := Some 3 \<rparr>]"
          "Some [''64b7f0c2a1d3e4f5a6b7c8d1'', ''64b7f0c2a1d3e4f5a6b7c8d2'']"]
  by (simp add: example_defs new_Url_def example_cast_def)

text \<open>
  C10, as stated, fails for an id that is not well formed: no record with that id
  belongs to the caller, and the answer is 500, not 404.
\<close>

theorem malformed_id_counterexample:
  "\<not> list_ex (\<lambda>d. userId d = Some 3) [example_url] \<and>
   delete_url example_cast 3 ''not-an-id'' [example_url] =
     (Json 500 False ''Server error during URL deletion'' None, [example_url])"
  by (simp add: delete_url_def example_cast_def example_defs new_Url_def)

end
